theory Spec2Isabelle
  imports Complex_Main
begin

section \<open>Tables\<close>

text \<open>
  A pandas DataFrame is modelled as the list of its column names together with the list
  of its rows, a row giving the cell found under each column name. A cell is absent
  (\<open>Null\<close>, pandas' NaN / NA), a string, a number or a boolean. Numbers are exact
  rationals: the rounding of binary floating point is not modelled.
\<close>

datatype cell = Null | Str string | Num rat | Bool bool

datatype error = KeyError string | TypeError string | FileNotFoundError

record frame =
  columns :: "string list"
  rows :: "(string \<Rightarrow> cell) list"

definition column :: "'a frame_scheme \<Rightarrow> string \<Rightarrow> cell list" where
  \<comment> \<open>\<open>df[col]\<close> for a column that exists\<close>
  "column df col = map (\<lambda>r. r col) (rows df)"

definition dropna :: "cell list \<Rightarrow> cell list" where
  "dropna series = filter (\<lambda>v. v \<noteq> Null) series"

definition unique :: "'a list \<Rightarrow> 'a list" where
  \<comment> \<open>the distinct values in order of first appearance\<close>
  "unique vs = rev (remdups (rev vs))"

definition mode :: "'a list \<Rightarrow> 'a list" where
  \<comment> \<open>\<open>Series.mode\<close>: every value whose number of occurrences is maximal\<close>
  "mode vs = filter (\<lambda>v. \<forall>w \<in> set vs. count_list vs w \<le> count_list vs v) (unique vs)"

section \<open>Customer demographic standardization (customer_standardize.py)\<close>

definition resolve :: "cell list \<Rightarrow> cell \<times> nat" where
  "resolve series =
     (let values = dropna series in
      if length values = 0 then (Str ''Unknown'', 0)
      else let uniq = unique values in
        if length uniq = 1 then (hd uniq, 0)
        else let m = mode values in
          if length m = 1 then (hd m, 1)
          else (Str ''Conflict'', 1))"




text \<open>
  \<open>df.groupby(col)\<close>: the group keys are the distinct non-null values of the column and
  the group of a key holds, in table order, the rows carrying it; rows whose key is
  absent belong to no group (pandas' default \<open>dropna=True\<close>). pandas hands the groups
  out ordered by key; here they come in order of first appearance. No result below
  depends on that order: the customer table is joined back by key and the churn
  breakdowns are sorted again by rate.
\<close>

definition group_keys :: "'a frame_scheme \<Rightarrow> string \<Rightarrow> cell list" where
  "group_keys df col = unique (dropna (column df col))"

definition group_rows :: "'a frame_scheme \<Rightarrow> string \<Rightarrow> cell \<Rightarrow> (string \<Rightarrow> cell) list" where
  "group_rows df col k = filter (\<lambda>r. r col = k) (rows df)"










text \<open>The predicates in which the resolver's policy is stated.\<close>

definition sole_mode :: "'a list \<Rightarrow> 'a \<Rightarrow> bool" where
  \<comment> \<open>\<open>v\<close> occurs strictly more often than every other value\<close>
  "sole_mode vs v \<longleftrightarrow>
     v \<in> set vs \<and> (\<forall>w \<in> set vs. w \<noteq> v \<longrightarrow> count_list vs w < count_list vs v)"

definition tied_modes :: "'a list \<Rightarrow> bool" where
  \<comment> \<open>two different values share the maximal number of occurrences\<close>
  "tied_modes vs \<longleftrightarrow>
     (\<exists>a \<in> set vs. \<exists>b \<in> set vs. a \<noteq> b \<and> count_list vs a = count_list vs b
        \<and> (\<forall>w \<in> set vs. count_list vs w \<le> count_list vs a))"

text \<open>
  A row written out as the list of its present cells (every other column is absent), and
  the table of the end-to-end scenario: three policies of customer C1 with genders F, F
  and M, and one policy of customer C2 with no gender.
\<close>

definition mk_row :: "(string \<times> cell) list \<Rightarrow> string \<Rightarrow> cell" where
  "mk_row al c = (case map_of al c of None \<Rightarrow> Null | Some v \<Rightarrow> v)"





section \<open>Churn rate analysis (churn_rate.py)\<close>

text \<open>
  The results of float arithmetic that are not numbers are kept apart: a division by
  zero gives an infinity or NaN instead of raising, as in pandas.
\<close>

datatype fnum = Val rat | PosInf | NegInf | NaN

fun fdiv :: "rat \<Rightarrow> rat \<Rightarrow> fnum" where
  "fdiv a b = (if b \<noteq> 0 then Val (a / b)
               else if a = 0 then NaN else if 0 < a then PosInf else NegInf)"

fun ftimes100 :: "fnum \<Rightarrow> fnum" where
  "ftimes100 (Val a) = Val (a * 100)"
| "ftimes100 x = x"

fun fsub :: "fnum \<Rightarrow> fnum \<Rightarrow> fnum" where
  "fsub (Val a) (Val b) = Val (a - b)"
| "fsub NaN _ = NaN"
| "fsub _ NaN = NaN"
| "fsub PosInf PosInf = NaN"
| "fsub NegInf NegInf = NaN"
| "fsub PosInf _ = PosInf"
| "fsub NegInf _ = NegInf"
| "fsub (Val a) PosInf = NegInf"
| "fsub (Val a) NegInf = PosInf"

text \<open>
  The \<open>churned\<close> column holds booleans (or 0/1): \<open>True\<close> counts 1 in a sum, an absent
  cell is skipped. A string does not occur in it.
\<close>

fun cell_num :: "cell \<Rightarrow> rat" where
  "cell_num (Bool b) = (if b then 1 else 0)"
| "cell_num (Num n) = n"
| "cell_num Null = 0"
| "cell_num (Str s) = 0"

definition series_sum :: "cell list \<Rightarrow> rat" where
  "series_sum s = sum_list (map cell_num s)"

definition series_mean :: "cell list \<Rightarrow> fnum" where
  \<comment> \<open>the mean of the present cells; NaN when there is none\<close>
  "series_mean s = fdiv (series_sum (dropna s)) (of_nat (length (dropna s)))"

definition nunique :: "cell list \<Rightarrow> nat" where
  \<comment> \<open>the number of distinct present values\<close>
  "nunique s = length (unique (dropna s))"

definition overall_churn_rate :: "'a frame_scheme \<Rightarrow> fnum" where
  "overall_churn_rate df = ftimes100 (series_mean (column df ''churned''))"

text \<open>
  The table read from the CSV file has no categorical column; \<open>pd.cut\<close> adds two. For
  a categorical column \<open>groupby\<close> (with pandas' default \<open>observed=False\<close>, the default
  before pandas 3.0) lists every category, also one that no row falls in. A table
  therefore carries the categories of its categorical columns.
\<close>

record binned_frame = frame +
  categories :: "(string \<times> cell list) list"

definition groupby_keys :: "binned_frame \<Rightarrow> string \<Rightarrow> cell list" where
  "groupby_keys df col =
     (case map_of (categories df) col of
        Some cats \<Rightarrow> cats
      | None \<Rightarrow> group_keys df col)"

record agg_row =
  group_value :: cell
  Total :: nat
  Churned :: rat
  Rate :: fnum

definition aggregate :: "binned_frame \<Rightarrow> string \<Rightarrow> cell \<Rightarrow> agg_row" where
  \<comment> \<open>\<open>agg(Total=('policy_id', 'nunique'), Churned=('churned', 'sum'))\<close> and the rate, for one group\<close>
  "aggregate df col k =
     (let grp = group_rows df col k;
          tot = nunique (map (\<lambda>r. r ''policy_id'') grp);
          chu = series_sum (map (\<lambda>r. r ''churned'') grp)
      in \<lparr>group_value = k, Total = tot, Churned = chu,
          Rate = ftimes100 (fdiv chu (of_nat tot))\<rparr>)"

text \<open>
  \<open>sort_values('Rate%', ascending=False)\<close>: the larger rate first, NaN last. The order
  among equal rates is whatever the insertion gives; the source leaves it open.
\<close>

fun rate_rank :: "fnum \<Rightarrow> nat" where
  "rate_rank NaN = 0"
| "rate_rank NegInf = 1"
| "rate_rank (Val a) = 2"
| "rate_rank PosInf = 3"

fun rate_geq :: "fnum \<Rightarrow> fnum \<Rightarrow> bool" where
  "rate_geq (Val a) (Val b) = (b \<le> a)"
| "rate_geq x y = (rate_rank y \<le> rate_rank x)"

fun insert_by_rate :: "agg_row \<Rightarrow> agg_row list \<Rightarrow> agg_row list" where
  "insert_by_rate x [] = [x]"
| "insert_by_rate x (y # ys) =
     (if rate_geq (Rate y) (Rate x) then y # insert_by_rate x ys else x # y # ys)"

definition sort_values :: "agg_row list \<Rightarrow> agg_row list" where
  "sort_values xs = foldr insert_by_rate xs []"

record table_line = agg_row +
  diff :: fnum

definition print_line :: "fnum \<Rightarrow> agg_row \<Rightarrow> table_line" where
  \<comment> \<open>the body of the loop over \<open>grp.iterrows()\<close>; the baseline is the global \<open>overall_churn_rate\<close>\<close>
  "print_line baseline row =
     \<lparr>group_value = group_value row, Total = Total row, Churned = Churned row, Rate = Rate row,
      diff = fsub (Rate row) baseline\<rparr>"

record churn_section =
  title :: string
  table_lines :: "table_line list"
  total_Total :: nat
  total_Churned :: rat

definition churn_table :: "fnum \<Rightarrow> binned_frame \<Rightarrow> string \<Rightarrow> string \<Rightarrow> error + churn_section" where
  "churn_table baseline df col ttl =
     (if col \<notin> set (columns df) then Inl (KeyError col)
      else if ''policy_id'' \<notin> set (columns df) then Inl (KeyError ''policy_id'')
      else if ''churned'' \<notin> set (columns df) then Inl (KeyError ''churned'')
      else let grp = sort_values (map (aggregate df col) (groupby_keys df col))
           in Inr \<lparr>title = ttl, table_lines = map (print_line baseline) grp,
                   total_Total = sum_list (map Total grp),
                   total_Churned = sum_list (map Churned grp)\<rparr>)"

text \<open>
  \<open>pd.cut\<close> of a numeric cell into labelled bins, closed on the right or on the left; a
  value in no bin, and an absent value, have no label. The binned columns are taken to
  be numeric.
\<close>

fun cut :: "bool \<Rightarrow> rat list \<Rightarrow> string list \<Rightarrow> cell \<Rightarrow> cell" where
  "cut right (lo # hi # edges) (l # labels) (Num x) =
     (if (if right then lo < x \<and> x \<le> hi else lo \<le> x \<and> x < hi) then Str l
      else cut right (hi # edges) labels (Num x))"
| "cut right edges labels c = Null"

definition age_labels :: "string list" where
  "age_labels = [''18-30'', ''31-40'', ''41-50'', ''51-60'', ''61-70'', ''71+'']"

definition tenure_labels :: "string list" where
  "tenure_labels = [''0-1yr'', ''1-2yr'', ''2-3yr'', ''3-4yr'', ''4-5yr'',
                    ''5-6yr'', ''6-7yr'', ''7-8yr'', ''8-9yr'', ''9-10yr'', ''10yr+'']"

definition age_group :: "cell \<Rightarrow> cell" where
  "age_group = cut True [17, 30, 40, 50, 60, 70, 120] age_labels"

definition tenure_group :: "cell \<Rightarrow> cell" where
  "tenure_group = cut False [0, 12, 24, 36, 48, 60, 72, 84, 96, 108, 120, 9999] tenure_labels"

definition add_column :: "string \<Rightarrow> ((string \<Rightarrow> cell) \<Rightarrow> cell) \<Rightarrow> string list
    \<Rightarrow> binned_frame \<Rightarrow> binned_frame" where
  \<comment> \<open>\<open>df[name] = pd.cut(...)\<close>: a new, or replaced, categorical column\<close>
  "add_column name f labels df =
     df\<lparr>columns := (if name \<in> set (columns df) then columns df else columns df @ [name]),
        rows := map (\<lambda>r. r(name := f r)) (rows df),
        categories := (name, map Str labels) # categories df\<rparr>"

definition derive_columns :: "frame \<Rightarrow> binned_frame" where
  "derive_columns df =
     add_column ''tenure_group'' (\<lambda>r. tenure_group (r ''tenure_months'')) tenure_labels
       (add_column ''age_group'' (\<lambda>r. age_group (r ''customer_age'')) age_labels
          (frame.extend df \<lparr>categories = []\<rparr>))"

definition breakdowns :: "(string \<times> string) list" where
  \<comment> \<open>the calls of \<open>churn_table\<close> in the order of the report, the arrows of two titles in ASCII\<close>
  "breakdowns =
    [(''product_type'', ''Product Type''),
     (''payment_frequency'', ''Payment Frequency  <- strong signal''),
     (''acquisition_channel'', ''Acquisition Channel''),
     (''late_payment_count'', ''Late Payment Count  <- strongest signal''),
     (''customer_service_calls'', ''Customer Service Calls''),
     (''beneficiary_updated'', ''Beneficiary Updated''),
     (''age_group'', ''Age Group''),
     (''customer_gender_std'', ''Gender (standardized)''),
     (''marital_status'', ''Marital Status''),
     (''income_band'', ''Income Band''),
     (''country_std'', ''Country (standardized)''),
     (''discount_applied'', ''Discount Applied''),
     (''has_rider'', ''Has Rider''),
     (''critical_illness_rider'', ''Critical Illness Rider''),
     (''disability_rider'', ''Disability Rider''),
     (''tenure_group'', ''Tenure Group  <- 6-8yr highest risk''),
     (''num_dependents'', ''Number of Dependents'')]"

text \<open>
  The calls run in order and the first one that raises ends the run: the script has a
  \<open>finally\<close> that restores the output stream and no \<open>except\<close>.
\<close>

fun run_tables :: "fnum \<Rightarrow> binned_frame \<Rightarrow> (string \<times> string) list \<Rightarrow> error + churn_section list" where
  "run_tables baseline df [] = Inr []"
| "run_tables baseline df ((col, ttl) # rest) =
     (case churn_table baseline df col ttl of
        Inl e \<Rightarrow> Inl e
      | Inr sec \<Rightarrow> (case run_tables baseline df rest of
                      Inl e \<Rightarrow> Inl e
                    | Inr secs \<Rightarrow> Inr (sec # secs)))"



text \<open>Predicates and sample tables in which the properties of the breakdowns are stated.\<close>

definition complete_partition :: "binned_frame \<Rightarrow> string \<Rightarrow> bool" where
  \<comment> \<open>every row of the table falls in one of the groups of the column\<close>
  "complete_partition df col \<longleftrightarrow> (\<forall>r \<in> set (rows df). r col \<in> set (groupby_keys df col))"

definition groups_disjoint :: "binned_frame \<Rightarrow> string \<Rightarrow> bool" where
  \<comment> \<open>no policy id occurs in the rows of two different groups\<close>
  "groups_disjoint df col \<longleftrightarrow>
     (\<forall>r \<in> set (rows df). \<forall>r' \<in> set (rows df).
        r ''policy_id'' = r' ''policy_id'' \<and> r ''policy_id'' \<noteq> Null \<longrightarrow> r col = r' col)"

definition policy_ids :: "binned_frame \<Rightarrow> string \<Rightarrow> cell \<Rightarrow> cell set" where
  "policy_ids df col k = (\<lambda>r. r ''policy_id'') ` {r \<in> set (rows df). r col = k} - {Null}"

definition exclude_null :: "binned_frame \<Rightarrow> string \<Rightarrow> binned_frame" where
  \<comment> \<open>the table without the rows whose cell under the column is absent\<close>
  "exclude_null df col = df\<lparr>rows := filter (\<lambda>r. r col \<noteq> Null) (rows df)\<rparr>"

definition duplicated_policy :: frame where
  \<comment> \<open>one churned policy whose row occurs twice\<close>
  "duplicated_policy = \<lparr>columns = [''policy_id'', ''churned'', ''product_type''],
     rows = [mk_row [(''policy_id'', Str ''P1''), (''churned'', Bool True), (''product_type'', Str ''Term'')],
             mk_row [(''policy_id'', Str ''P1''), (''churned'', Bool True), (''product_type'', Str ''Term'')]]\<rparr>"

definition split_policy :: frame where
  \<comment> \<open>one policy id on two rows with different product types\<close>
  "split_policy = \<lparr>columns = [''policy_id'', ''churned'', ''product_type''],
     rows = [mk_row [(''policy_id'', Str ''P1''), (''churned'', Bool True), (''product_type'', Str ''Term'')],
             mk_row [(''policy_id'', Str ''P1''), (''churned'', Bool True), (''product_type'', Str ''Whole'')]]\<rparr>"

definition null_group :: frame where
  \<comment> \<open>two policies, the second without a product type\<close>
  "null_group = \<lparr>columns = [''policy_id'', ''churned'', ''product_type''],
     rows = [mk_row [(''policy_id'', Str ''P1''), (''churned'', Bool True), (''product_type'', Str ''Term'')],
             mk_row [(''policy_id'', Str ''P2''), (''churned'', Bool False)]]\<rparr>"

definition two_products :: frame where
  \<comment> \<open>three policies with every column the churn report reads\<close>
  "two_products = \<lparr>columns = [''policy_id'', ''churned'', ''customer_age'', ''tenure_months''] @
       filter (\<lambda>c. c \<noteq> ''age_group'' \<and> c \<noteq> ''tenure_group'') (map fst breakdowns),
     rows = [mk_row [(''policy_id'', Str ''P1''), (''churned'', Bool True), (''product_type'', Str ''Term'')],
             mk_row [(''policy_id'', Str ''P2''), (''churned'', Bool False), (''product_type'', Str ''Term'')],
             mk_row [(''policy_id'', Str ''P3''), (''churned'', Bool True), (''product_type'', Str ''Whole'')]]\<rparr>"

definition without_column :: "string \<Rightarrow> frame \<Rightarrow> frame" where
  "without_column c df = df\<lparr>columns := filter (\<lambda>c'. c' \<noteq> c) (columns df)\<rparr>"

section \<open>Properties\<close>

subsection \<open>The resolver\<close>

lemma set_unique: "set (unique vs) = set vs"
  by (simp add: unique_def)

lemma distinct_unique: "distinct (unique vs)"
  by (simp add: unique_def)

lemma length_unique: "length (unique vs) = card (set vs)"
  using distinct_card[OF distinct_unique, of vs] by (simp add: set_unique)

lemma set_mode: "set (mode vs) = {v \<in> set vs. \<forall>w \<in> set vs. count_list vs w \<le> count_list vs v}"
  by (auto simp: mode_def set_unique)

lemma distinct_mode: "distinct (mode vs)"
  by (simp add: mode_def distinct_unique)

lemma singleton_list: "distinct xs \<Longrightarrow> set xs = {v} \<Longrightarrow> xs = [v]"
  by (metis distinct_card card_1_singleton_iff length_Suc_conv length_0_conv list.set_intros(1) singletonD One_nat_def)

lemma mode_sole: "sole_mode vs v \<Longrightarrow> mode vs = [v]"
proof -
  assume h: "sole_mode vs v"
  have "set (mode vs) = {v}"
    unfolding set_mode using h by (force simp: sole_mode_def)
  thus ?thesis using distinct_mode singleton_list by metis
qed

lemma mode_tied: "tied_modes vs \<Longrightarrow> length (mode vs) \<noteq> 1"
proof -
  assume "tied_modes vs"
  then obtain a b where h: "a \<in> set vs" "b \<in> set vs" "a \<noteq> b"
      "count_list vs a = count_list vs b" "\<forall>w \<in> set vs. count_list vs w \<le> count_list vs a"
    unfolding tied_modes_def by blast
  have ab: "a \<in> set (mode vs)" "b \<in> set (mode vs)" "a \<noteq> b"
    using h by (simp_all add: set_mode)
  show ?thesis
  proof
    assume "length (mode vs) = 1"
    then obtain x where "mode vs = [x]" by (cases "mode vs") auto
    with ab show False by auto
  qed
qed

text \<open>
  C1. The resolver's policy, case by case: no present observation gives
  \<open>("Unknown", 0)\<close>; one distinct present value gives that value with flag 0, however
  often it was observed; at least two distinct values of which one is strictly the most
  frequent give that value with flag 1; at least two distinct values with a tie for the
  most frequent give \<open>("Conflict", 1)\<close>. Values are compared by equality of cells, so
  strings differing in case are different values.
\<close>

theorem resolve_policy:
  "(dropna s = [] \<longrightarrow> resolve s = (Str ''Unknown'', 0)) \<and>
   (set (dropna s) = {v} \<longrightarrow> resolve s = (v, 0)) \<and>
   (2 \<le> card (set (dropna s)) \<and> sole_mode (dropna s) v \<longrightarrow> resolve s = (v, 1)) \<and>
   (2 \<le> card (set (dropna s)) \<and> tied_modes (dropna s) \<longrightarrow> resolve s = (Str ''Conflict'', 1))"
proof (intro conjI impI)
  assume "dropna s = []" thus "resolve s = (Str ''Unknown'', 0)" by (simp add: resolve_def)
next
  assume h: "set (dropna s) = {v}"
  hence "unique (dropna s) = [v]" using singleton_list[OF distinct_unique] set_unique by metis
  moreover have "dropna s \<noteq> []" using h by auto
  ultimately show "resolve s = (v, 0)" by (simp add: resolve_def)
next
  assume h: "2 \<le> card (set (dropna s)) \<and> sole_mode (dropna s) v"
  hence "dropna s \<noteq> []" by auto
  moreover have "length (unique (dropna s)) \<noteq> 1" using h by (simp add: length_unique)
  moreover have "mode (dropna s) = [v]" using h by (simp add: mode_sole)
  ultimately show "resolve s = (v, 1)" by (simp add: resolve_def Let_def)
next
  assume h: "2 \<le> card (set (dropna s)) \<and> tied_modes (dropna s)"
  hence "dropna s \<noteq> []" by auto
  moreover have "length (unique (dropna s)) \<noteq> 1" using h by (simp add: length_unique)
  moreover have "length (mode (dropna s)) \<noteq> 1" using h mode_tied[of "dropna s"] by simp
  ultimately show "resolve s = (Str ''Conflict'', 1)" by (simp add: resolve_def Let_def)
qed

theorem resolve_policy_witness:
  "dropna [Null, Null] = [] \<and> resolve [Null, Null] = (Str ''Unknown'', 0) \<and>
   set (dropna [Str ''F'', Null, Str ''F'']) = {Str ''F''} \<and>
   resolve [Str ''F'', Null, Str ''F''] = (Str ''F'', 0) \<and>
   2 \<le> card (set (dropna [Str ''F'', Str ''M'', Null, Str ''F''])) \<and>
   sole_mode (dropna [Str ''F'', Str ''M'', Null, Str ''F'']) (Str ''F'') \<and>
   resolve [Str ''F'', Str ''M'', Null, Str ''F''] = (Str ''F'', 1) \<and>
   2 \<le> card (set (dropna [Str ''F'', Str ''f'', Null])) \<and>
   tied_modes (dropna [Str ''F'', Str ''f'', Null]) \<and>
   resolve [Str ''F'', Str ''f'', Null] = (Str ''Conflict'', 1)"
proof -
  have w1: "dropna [Null, Null] = []" by (simp add: dropna_def)
  have w2: "set (dropna [Str ''F'', Null, Str ''F'']) = {Str ''F''}" by (simp add: dropna_def)
  have w3: "2 \<le> card (set (dropna [Str ''F'', Str ''M'', Null, Str ''F''])) \<and>
            sole_mode (dropna [Str ''F'', Str ''M'', Null, Str ''F'']) (Str ''F'')"
    by (simp add: dropna_def sole_mode_def card_insert_if)
  have d: "dropna [Str ''F'', Str ''f'', Null] = [Str ''F'', Str ''f'']" by (simp add: dropna_def)
  have "tied_modes [Str ''F'', Str ''f'']"
    unfolding tied_modes_def
    by (rule bexI[of _ "Str ''F''"], rule bexI[of _ "Str ''f''"]) simp_all
  hence w4: "2 \<le> card (set (dropna [Str ''F'', Str ''f'', Null])) \<and>
             tied_modes (dropna [Str ''F'', Str ''f'', Null])"
    unfolding d by (simp add: card_insert_if)
  have a: "resolve [Null, Null] = (Str ''Unknown'', 0)"
    using resolve_policy[of "[Null, Null]" Null] w1 by simp
  have b: "resolve [Str ''F'', Null, Str ''F''] = (Str ''F'', 0)"
    using resolve_policy[of "[Str ''F'', Null, Str ''F'']" "Str ''F''"] w2 by simp
  have c: "resolve [Str ''F'', Str ''M'', Null, Str ''F''] = (Str ''F'', 1)"
    using resolve_policy[of "[Str ''F'', Str ''M'', Null, Str ''F'']" "Str ''F''"] w3 by simp
  have e: "resolve [Str ''F'', Str ''f'', Null] = (Str ''Conflict'', 1)"
    using resolve_policy[of "[Str ''F'', Str ''f'', Null]" Null] w4 by simp
  show ?thesis using a b c e w1 w2 w3 w4 by simp
qed

subsection \<open>The merge back onto the policies\<close>

lemma set_group_keys:
  "set (group_keys df col) = {k. k \<noteq> Null \<and> (\<exists>r \<in> set (rows df). r col = k)}"
  by (auto simp: group_keys_def set_unique dropna_def column_def)

lemma distinct_group_keys: "distinct (group_keys df col)"
  by (simp add: group_keys_def distinct_unique)
















subsection \<open>The churn breakdowns\<close>

lemma sum_insert_by_rate: "sum_list (map f (insert_by_rate x ys)) = f x + sum_list (map f ys)"
  for f :: "agg_row \<Rightarrow> 'a::comm_monoid_add"
  by (induction ys) (auto simp: add.left_commute)

lemma sum_sort_values: "sum_list (map f (sort_values xs)) = sum_list (map f xs)"
  for f :: "agg_row \<Rightarrow> 'a::comm_monoid_add"
  by (induction xs) (auto simp: sort_values_def sum_insert_by_rate)

lemma set_insert_by_rate: "set (insert_by_rate x ys) = insert x (set ys)"
  by (induction ys) auto

lemma set_sort_values: "set (sort_values xs) = set xs"
  by (induction xs) (auto simp: sort_values_def set_insert_by_rate)

lemma columns_derive:
  "set (columns (derive_columns df)) = set (columns df) \<union> {''age_group'', ''tenure_group''}"
  by (auto simp: derive_columns_def add_column_def frame.extend_def)

lemma categories_derive:
  "categories (derive_columns df) =
     [(''tenure_group'', map Str tenure_labels), (''age_group'', map Str age_labels)]"
  by (simp add: derive_columns_def add_column_def frame.extend_def)

lemma rows_derive:
  "rows (derive_columns df) = map (\<lambda>r. r(''age_group'' := age_group (r ''customer_age''),
       ''tenure_group'' := tenure_group (r ''tenure_months''))) (rows df)"
  by (simp add: derive_columns_def add_column_def frame.extend_def comp_def)

lemma column_derive:
  "c \<noteq> ''age_group'' \<Longrightarrow> c \<noteq> ''tenure_group'' \<Longrightarrow> column (derive_columns df) c = column df c"
  by (simp add: column_def rows_derive comp_def)

lemma distinct_groupby_keys: "distinct (groupby_keys (derive_columns df) col)"
  by (simp add: groupby_keys_def categories_derive distinct_group_keys distinct_map
      tenure_labels_def age_labels_def inj_on_def)

lemma null_not_key: "Null \<notin> set (groupby_keys (derive_columns df) col)"
  by (auto simp: groupby_keys_def categories_derive set_group_keys)

lemma churn_table_lines:
  assumes "churn_table b df col t = Inr sec"
  shows "set (table_lines sec) = print_line b ` aggregate df col ` set (groupby_keys df col)"
  using assms by (auto simp: churn_table_def Let_def set_sort_values split: if_splits)

lemma churn_table_returns:
  "col \<in> set (columns df) \<Longrightarrow> ''policy_id'' \<in> set (columns df) \<Longrightarrow> ''churned'' \<in> set (columns df)
    \<Longrightarrow> \<exists>sec. churn_table b df col t = Inr sec"
  by (simp add: churn_table_def Let_def)




lemma run_tables_raises:
  "(col, t) \<in> set cs \<Longrightarrow> col \<notin> set (columns df) \<Longrightarrow> \<exists>e. run_tables b df cs = Inl e"
proof (induction cs)
  case Nil thus ?case by simp
next
  case (Cons c cs)
  obtain col' t' where c: "c = (col', t')" by (cases c)
  show ?case
  proof (cases "(col, t) = c")
    case True
    hence "churn_table b df col' t' = Inl (KeyError col)"
      using Cons.prems(2) c by (simp add: churn_table_def)
    thus ?thesis by (simp add: c)
  next
    case False
    hence "\<exists>e. run_tables b df cs = Inl e" using Cons by auto
    thus ?thesis by (auto simp: c split: sum.splits)
  qed
qed

lemma sum_indicator_distinct:
  fixes c :: "'a::comm_monoid_add"
  shows "distinct ks \<Longrightarrow>
    sum_list (map (\<lambda>k. if x = k then c else 0) ks) = (if x \<in> set ks then c else 0)"
  by (induction ks) auto

lemma sum_groups:
  fixes f :: "'r \<Rightarrow> rat"
  assumes "distinct ks"
  shows "sum_list (map (\<lambda>k. sum_list (map f (filter (\<lambda>r. g r = k) rs))) ks)
       = sum_list (map f (filter (\<lambda>r. g r \<in> set ks) rs))"
proof (induction rs)
  case Nil show ?case by simp
next
  case (Cons r rs)
  have "sum_list (map (\<lambda>k. sum_list (map f (filter (\<lambda>r. g r = k) (r # rs)))) ks)
      = sum_list (map (\<lambda>k. (if g r = k then f r else 0)
                              + sum_list (map f (filter (\<lambda>r. g r = k) rs))) ks)"
    by (intro arg_cong[where f=sum_list] map_cong) auto
  also have "\<dots> = (if g r \<in> set ks then f r else 0)
      + sum_list (map (\<lambda>k. sum_list (map f (filter (\<lambda>r. g r = k) rs))) ks)"
    by (simp add: sum_list_addf sum_indicator_distinct[OF assms])
  finally show ?case using Cons by simp
qed

lemma churned_total:
  assumes "churn_table b df col t = Inr sec" "distinct (groupby_keys df col)"
    "complete_partition df col"
  shows "total_Churned sec = series_sum (column df ''churned'')"
proof -
  have "total_Churned sec = sum_list (map Churned (map (aggregate df col) (groupby_keys df col)))"
    using assms(1) by (auto simp: churn_table_def Let_def sum_sort_values split: if_splits)
  also have "\<dots> = sum_list (map (\<lambda>k. sum_list (map (\<lambda>r. cell_num (r ''churned''))
                        (filter (\<lambda>r. r col = k) (rows df)))) (groupby_keys df col))"
    by (simp add: aggregate_def Let_def comp_def series_sum_def group_rows_def)
  also have "\<dots> = sum_list (map (\<lambda>r. cell_num (r ''churned''))
                        (filter (\<lambda>r. r col \<in> set (groupby_keys df col)) (rows df)))"
    by (rule sum_groups[OF assms(2)])
  also have "filter (\<lambda>r. r col \<in> set (groupby_keys df col)) (rows df) = rows df"
    using assms(3) by (simp add: complete_partition_def)
  finally show ?thesis by (simp add: series_sum_def column_def comp_def)
qed

lemma nunique_card: "nunique s = card (set s - {Null})"
proof -
  have "set (dropna s) = set s - {Null}" by (auto simp: dropna_def)
  thus ?thesis by (simp add: nunique_def length_unique)
qed

lemma total_total:
  assumes "churn_table b df col t = Inr sec" "distinct (groupby_keys df col)"
    "complete_partition df col" "groups_disjoint df col"
  shows "total_Total sec = nunique (column df ''policy_id'')"
proof -
  let ?ks = "groupby_keys df col"
  have "total_Total sec = sum_list (map Total (map (aggregate df col) ?ks))"
    using assms(1) by (auto simp: churn_table_def Let_def sum_sort_values split: if_splits)
  also have "\<dots> = sum_list (map (\<lambda>k. card (policy_ids df col k)) ?ks)"
    by (simp add: aggregate_def Let_def comp_def nunique_card group_rows_def policy_ids_def)
  also have "\<dots> = (\<Sum>k \<in> set ?ks. card (policy_ids df col k))"
    using assms(2) by (simp add: sum_list_distinct_conv_sum_set)
  also have "\<dots> = card (\<Union>k \<in> set ?ks. policy_ids df col k)"
  proof (rule card_UN_disjoint[symmetric])
    show "finite (set ?ks)" by simp
    show "\<forall>i\<in>set ?ks. finite (policy_ids df col i)" by (simp add: policy_ids_def)
    show "\<forall>i\<in>set ?ks. \<forall>j\<in>set ?ks. i \<noteq> j \<longrightarrow> policy_ids df col i \<inter> policy_ids df col j = {}"
      using assms(4) unfolding groups_disjoint_def policy_ids_def by fastforce
  qed
  also have "(\<Union>k \<in> set ?ks. policy_ids df col k) = set (column df ''policy_id'') - {Null}"
    using assms(3) unfolding complete_partition_def policy_ids_def column_def by auto
  finally show ?thesis by (simp add: nunique_card)
qed

lemmas eval_table = churn_table_def groupby_keys_def categories_derive columns_derive rows_derive
  group_keys_def column_def dropna_def unique_def mk_row_def sort_values_def aggregate_def
  group_rows_def nunique_def series_sum_def print_line_def




lemma exclude_null_keys:
  "groupby_keys (exclude_null df col) col = groupby_keys df col"
proof -
  have "filter (\<lambda>v. v \<noteq> Null) (map (\<lambda>r. r col) (filter (\<lambda>r. r col \<noteq> Null) rs))
      = filter (\<lambda>v. v \<noteq> Null) (map (\<lambda>r. r col) rs)" for rs :: "(string \<Rightarrow> cell) list"
    by (induction rs) auto
  hence a: "group_keys (exclude_null df col) col = group_keys df col"
    by (simp add: exclude_null_def group_keys_def column_def dropna_def)
  have b: "categories (exclude_null df col) = categories df"
    by (simp add: exclude_null_def)
  show ?thesis unfolding groupby_keys_def a b by (rule refl)
qed

lemma exclude_null_aggregate:
  "k \<noteq> Null \<Longrightarrow> aggregate (exclude_null df col) col k = aggregate df col k"
proof -
  assume k: "k \<noteq> Null"
  have "filter (\<lambda>r. r col = k) (filter (\<lambda>r. r col \<noteq> Null) rs) = filter (\<lambda>r. r col = k) rs"
    for rs :: "(string \<Rightarrow> cell) list"
    using k by (induction rs) auto
  thus ?thesis by (simp add: aggregate_def group_rows_def exclude_null_def)
qed

lemma exclude_null_table:
  assumes "Null \<notin> set (groupby_keys df col)"
  shows "churn_table b (exclude_null df col) col t = churn_table b df col t"
proof -
  have "map (aggregate (exclude_null df col) col) (groupby_keys df col)
      = map (aggregate df col) (groupby_keys df col)"
    using assms by (intro map_cong refl exclude_null_aggregate) auto
  moreover have "columns (exclude_null df col) = columns df" by (simp add: exclude_null_def)
  ultimately show ?thesis by (simp only: churn_table_def exclude_null_keys)
qed

lemma dropna_id: "Null \<notin> set s \<Longrightarrow> dropna s = s"
  by (induction s) (auto simp: dropna_def)

text \<open>
  C3. On a table holding the row of one churned policy twice, the breakdown by product
  type counts the policy once in its total and twice in its churned count, which makes
  the rate 200 percent: \<open>Total\<close> is the number of distinct policy ids of the group,
  \<open>Churned\<close> the sum of the flag over the rows of the group.
\<close>

theorem churn_table_duplicated_row:
  "\<exists>sec. churn_table (overall_churn_rate duplicated_policy) (derive_columns duplicated_policy)
            ''product_type'' ''Product Type'' = Inr sec \<and>
     map (\<lambda>l. (group_value l, Total l, Churned l, Rate l)) (table_lines sec) =
       [(Str ''Term'', 1, 2, Val 200)]"
  by (simp add: eval_table duplicated_policy_def)






text \<open>
  C5, as the claim states it, fails: on a table whose two rows carry the same policy id
  and different product types, every row falls in a group, the totals of the two groups
  add up to 2, and the table has one distinct policy id.
\<close>

theorem churn_totals_counterexample:
  "complete_partition (derive_columns split_policy) ''product_type'' \<and>
   map_sum id total_Total
     (churn_table (overall_churn_rate split_policy) (derive_columns split_policy)
        ''product_type'' ''Product Type'') = Inr 2 \<and>
   nunique (column split_policy ''policy_id'') = 1"
  by (simp add: complete_partition_def eval_table split_policy_def)

text \<open>
  C5, amended. For a breakdown of the table of the report over a column in whose groups
  every row falls, the churned counts of the groups add up to the sum of the \<open>churned\<close>
  column of the table; and when, in addition, no policy id occurs in two different
  groups, the totals of the groups add up to the number of distinct policy ids of the
  table.
\<close>

theorem churn_totals:
  "churn_table b (derive_columns df) col t = Inr sec \<and> complete_partition (derive_columns df) col \<longrightarrow>
     total_Churned sec = series_sum (column df ''churned'') \<and>
     (groups_disjoint (derive_columns df) col \<longrightarrow>
        total_Total sec = nunique (column df ''policy_id''))"
proof (intro impI conjI)
  assume h: "churn_table b (derive_columns df) col t = Inr sec \<and> complete_partition (derive_columns df) col"
  show "total_Churned sec = series_sum (column df ''churned'')"
    using churned_total[OF conjunct1[OF h] distinct_groupby_keys conjunct2[OF h]]
    by (simp add: column_derive)
  assume "groups_disjoint (derive_columns df) col"
  from total_total[OF conjunct1[OF h] distinct_groupby_keys conjunct2[OF h] this]
  show "total_Total sec = nunique (column df ''policy_id'')"
    by (simp add: column_derive)
qed

lemma two_products_partition:
  "complete_partition (derive_columns two_products) ''product_type'' \<and>
   groups_disjoint (derive_columns two_products) ''product_type''"
  by (simp add: complete_partition_def groups_disjoint_def eval_table two_products_def)

lemma two_products_sums:
  "series_sum (column two_products ''churned'') = 2 \<and>
   nunique (column two_products ''policy_id'') = 3"
  by (simp add: eval_table two_products_def)

theorem churn_totals_witness:
  "\<exists>sec. churn_table (Val (200 / 3)) (derive_columns two_products) ''product_type'' ''Product Type''
            = Inr sec \<and>
     complete_partition (derive_columns two_products) ''product_type'' \<and>
     groups_disjoint (derive_columns two_products) ''product_type'' \<and>
     total_Churned sec = 2 \<and> total_Total sec = 3"
proof -
  have "\<exists>sec. churn_table (Val (200 / 3)) (derive_columns two_products)
                 ''product_type'' ''Product Type'' = Inr sec"
    by (rule churn_table_returns) (simp_all add: columns_derive two_products_def breakdowns_def)
  then obtain sec where sec: "churn_table (Val (200 / 3)) (derive_columns two_products)
                 ''product_type'' ''Product Type'' = Inr sec" ..
  note p = two_products_partition
  note r = mp[OF churn_totals[of "Val (200 / 3)" two_products "''product_type''" "''Product Type'' " sec]
              conjI[OF sec conjunct1[OF p]]]
  have c: "total_Churned sec = 2"
    using conjunct1[OF r] by (simp only: two_products_sums)
  have t: "total_Total sec = 3"
    using mp[OF conjunct2[OF r] conjunct2[OF p]] by (simp only: two_products_sums)
  show ?thesis
    by (rule exI[of _ sec], intro conjI)
       (rule sec, rule conjunct1[OF p], rule conjunct2[OF p], rule c, rule t)
qed

lemma null_group_rates:
  "overall_churn_rate null_group = Val 50 \<and>
   overall_churn_rate (exclude_null (derive_columns null_group) ''product_type'') = Val 100"
  by (simp add: overall_churn_rate_def series_mean_def series_sum_def column_def dropna_def
      null_group_def mk_row_def exclude_null_def rows_derive)

lemma null_group_table:
  "map_sum id (\<lambda>sec. map (\<lambda>l. (group_value l, Total l, Churned l, Rate l, diff l)) (table_lines sec))
     (churn_table (Val 50) (derive_columns null_group) ''product_type'' ''Product Type'')
   = Inr [(Str ''Term'', 1, 1, Val 100, Val 50)]"
  by (simp add: eval_table null_group_def)

text \<open>
  C10. A breakdown of the table of the report over a column is the breakdown of the
  table without the rows whose cell under the column is absent: such rows add to no
  total and to no churned count, and no line has the absent value as its group. The
  baseline is computed from the \<open>churned\<close> column of all rows: with no absent flag its
  denominator is the number of rows of the table, which is larger than the number of
  rows the breakdown counts as soon as the column has an absent cell. On the table of
  two policies, the second without product type, the only line is that of the first
  policy with rate 100 and deviation 50 against the baseline 50 of both rows; over the
  rows the breakdown counts the churn rate is 100.
\<close>

theorem null_group_excluded:
  "churn_table b (exclude_null (derive_columns df) col) col t = churn_table b (derive_columns df) col t \<and>
   (churn_table b (derive_columns df) col t = Inr sec \<longrightarrow>
      (\<forall>l \<in> set (table_lines sec). group_value l \<noteq> Null)) \<and>
   (Null \<in> set (column (derive_columns df) col) \<longrightarrow>
      length (rows (exclude_null (derive_columns df) col)) < length (rows df)) \<and>
   (Null \<notin> set (column df ''churned'') \<longrightarrow>
      overall_churn_rate df =
        ftimes100 (fdiv (series_sum (column df ''churned'')) (of_nat (length (rows df))))) \<and>
   overall_churn_rate null_group = Val 50 \<and>
   overall_churn_rate (exclude_null (derive_columns null_group) ''product_type'') = Val 100 \<and>
   map_sum id (\<lambda>sec. map (\<lambda>l. (group_value l, Total l, Churned l, Rate l, diff l)) (table_lines sec))
     (churn_table (overall_churn_rate null_group) (derive_columns null_group)
        ''product_type'' ''Product Type'')
     = Inr [(Str ''Term'', 1, 1, Val 100, Val 50)]"
proof -
  have same: "churn_table b (exclude_null (derive_columns df) col) col t
      = churn_table b (derive_columns df) col t"
    by (rule exclude_null_table[OF null_not_key])
  have groups: "churn_table b (derive_columns df) col t = Inr sec \<longrightarrow>
      (\<forall>l \<in> set (table_lines sec). group_value l \<noteq> Null)"
  proof
    assume "churn_table b (derive_columns df) col t = Inr sec"
    from churn_table_lines[OF this] null_not_key[of df col]
    show "\<forall>l \<in> set (table_lines sec). group_value l \<noteq> Null"
      by (auto simp: print_line_def aggregate_def Let_def)
  qed
  have fewer: "Null \<in> set (column (derive_columns df) col) \<longrightarrow>
      length (rows (exclude_null (derive_columns df) col)) < length (rows df)"
  proof
    assume "Null \<in> set (column (derive_columns df) col)"
    then obtain r where "r \<in> set (rows (derive_columns df))" "r col = Null"
      by (auto simp: column_def)
    hence "length (filter (\<lambda>r. r col \<noteq> Null) (rows (derive_columns df)))
        < length (rows (derive_columns df))"
      by (intro length_filter_less[of r]) auto
    thus "length (rows (exclude_null (derive_columns df) col)) < length (rows df)"
      by (simp add: exclude_null_def rows_derive)
  qed
  have base: "Null \<notin> set (column df ''churned'') \<longrightarrow>
      overall_churn_rate df =
        ftimes100 (fdiv (series_sum (column df ''churned'')) (of_nat (length (rows df))))"
    by (simp add: overall_churn_rate_def series_mean_def dropna_id column_def)
  have table: "map_sum id (\<lambda>sec. map (\<lambda>l. (group_value l, Total l, Churned l, Rate l, diff l)) (table_lines sec))
     (churn_table (overall_churn_rate null_group) (derive_columns null_group)
        ''product_type'' ''Product Type'')
     = Inr [(Str ''Term'', 1, 1, Val 100, Val 50)]"
    by (simp only: conjunct1[OF null_group_rates] null_group_table)
  show ?thesis
    by (intro conjI) (rule same, rule groups, rule fewer, rule base,
        rule conjunct1[OF null_group_rates], rule conjunct2[OF null_group_rates], rule table)
qed

lemma null_group_facts:
  "Null \<in> set (column (derive_columns null_group) ''product_type'') \<and>
   Null \<notin> set (column null_group ''churned'') \<and> length (rows null_group) = 2"
  by (simp add: column_def rows_derive null_group_def mk_row_def)

theorem null_group_excluded_witness:
  "\<exists>sec. churn_table (Val 50) (derive_columns null_group) ''product_type'' ''Product Type'' = Inr sec \<and>
     table_lines sec \<noteq> [] \<and> group_value (hd (table_lines sec)) \<noteq> Null \<and>
     Null \<in> set (column (derive_columns null_group) ''product_type'') \<and>
     length (rows (exclude_null (derive_columns null_group) ''product_type'')) < 2 \<and>
     Null \<notin> set (column null_group ''churned'') \<and>
     overall_churn_rate null_group =
       ftimes100 (fdiv (series_sum (column null_group ''churned'')) 2)"
proof -
  note inst = null_group_excluded[of "Val 50" null_group "''product_type''" "''Product Type''"]
  have "\<exists>sec. churn_table (Val 50) (derive_columns null_group)
                 ''product_type'' ''Product Type'' = Inr sec"
    by (rule churn_table_returns) (simp_all add: columns_derive null_group_def)
  then obtain sec where sec: "churn_table (Val 50) (derive_columns null_group)
                 ''product_type'' ''Product Type'' = Inr sec" ..
  have ne: "table_lines sec \<noteq> []"
    using null_group_table by (auto simp: sec)
  note g = mp[OF conjunct1[OF conjunct2[OF inst[of sec]]] sec]
  have first_line: "group_value (hd (table_lines sec)) \<noteq> Null"
    by (rule bspec[OF g hd_in_set[OF ne]])
  note f = null_group_facts
  have len: "length (rows (exclude_null (derive_columns null_group) ''product_type'')) < 2"
    using mp[OF conjunct1[OF conjunct2[OF conjunct2[OF inst[of sec]]]] conjunct1[OF f]]
    by (simp only: conjunct2[OF conjunct2[OF f]])
  have base: "overall_churn_rate null_group =
       ftimes100 (fdiv (series_sum (column null_group ''churned'')) 2)"
    using mp[OF conjunct1[OF conjunct2[OF conjunct2[OF conjunct2[OF inst[of sec]]]]]
             conjunct1[OF conjunct2[OF f]]]
    by (simp add: conjunct2[OF conjunct2[OF f]])
  show ?thesis
    by (rule exI[of _ sec], intro conjI)
       (rule sec, rule ne, rule first_line, rule conjunct1[OF f], rule len,
        rule conjunct1[OF conjunct2[OF f]], rule base)
qed


end
